theory Spec2Isabelle
  imports Complex_Main
begin

section \<open>Gesture types and the gesture-to-action table (gestures/mappings.py)\<close>

text \<open>
  The enumeration \<^verbatim>\<open>GestureType\<close>, with its twelve variants in the order of the source.
\<close>

datatype GestureType =
    NONE | OPEN_PALM | FIST | POINT | PEACE | THUMBS_UP | THUMBS_DOWN
  | PINCH | THREE_FINGERS | ROCK | OK_SIGN | HOOK

text \<open>
  The dataclass \<^verbatim>\<open>GestureAction\<close>; its fields \<^verbatim>\<open>gesture\<close> and \<^verbatim>\<open>name\<close> are
  \<open>action_gesture\<close> and \<open>action_name\<close> here.
\<close>

record GestureAction =
  action_gesture :: GestureType
  action_name :: string
  description :: string
  action_type :: string
  command :: "string option"
  continuous :: bool

text \<open>
  The dictionary \<^verbatim>\<open>GESTURE_ACTIONS\<close>, entry by entry, as an association list in the
  order the source writes it; the keys are distinct, so \<open>map_of\<close> is the dictionary.
\<close>

definition GESTURE_ACTIONS :: "(GestureType \<times> GestureAction) list" where
  "GESTURE_ACTIONS =
    [(OPEN_PALM, \<lparr>action_gesture = OPEN_PALM, action_name = ''Cursor Mode'',
        description = ''Move cursor following palm position'',
        action_type = ''mouse'', command = Some ''move'', continuous = True\<rparr>),
     (FIST, \<lparr>action_gesture = FIST, action_name = ''Drag Mode'',
        description = ''Click and drag while fist is held'',
        action_type = ''mouse'', command = Some ''drag'', continuous = True\<rparr>),
     (POINT, \<lparr>action_gesture = POINT, action_name = ''Left Click'',
        description = ''Single left click when gesture detected'',
        action_type = ''mouse'', command = Some ''left_click'', continuous = False\<rparr>),
     (PEACE, \<lparr>action_gesture = PEACE, action_name = ''Right Click'',
        description = ''Right click when peace sign shown'',
        action_type = ''mouse'', command = Some ''right_click'', continuous = False\<rparr>),
     (THUMBS_UP, \<lparr>action_gesture = THUMBS_UP, action_name = ''Scroll Up'',
        description = ''Scroll up while thumb up is held'',
        action_type = ''mouse'', command = Some ''scroll_up'', continuous = True\<rparr>),
     (THUMBS_DOWN, \<lparr>action_gesture = THUMBS_DOWN, action_name = ''Scroll Down'',
        description = ''Scroll down while thumb down is held'',
        action_type = ''mouse'', command = Some ''scroll_down'', continuous = True\<rparr>),
     (PINCH, \<lparr>action_gesture = PINCH, action_name = ''Precision Mode'',
        description = ''Fine cursor control when pinching'',
        action_type = ''mouse'', command = Some ''precision'', continuous = True\<rparr>),
     (THREE_FINGERS, \<lparr>action_gesture = THREE_FINGERS, action_name = ''Middle Click'',
        description = ''Middle click for opening links in new tab'',
        action_type = ''mouse'', command = Some ''middle_click'', continuous = False\<rparr>),
     (ROCK, \<lparr>action_gesture = ROCK, action_name = ''Voice Activate'',
        description = ''Activate voice command mode'',
        action_type = ''system'', command = Some ''voice_activate'', continuous = False\<rparr>),
     (OK_SIGN, \<lparr>action_gesture = OK_SIGN, action_name = ''Confirm'',
        description = ''Confirm current action or selection'',
        action_type = ''keyboard'', command = Some ''enter'', continuous = False\<rparr>)]"

text \<open>\<^verbatim>\<open>get_gesture_action\<close> is \<^verbatim>\<open>GESTURE_ACTIONS.get(gesture)\<close>: \<open>None\<close> for a missing key.\<close>

definition get_gesture_action :: "GestureType \<Rightarrow> GestureAction option" where
  "get_gesture_action g = map_of GESTURE_ACTIONS g"


section \<open>Hand landmarks (gestures/detector.py)\<close>

text \<open>
  A landmark is a row \<open>(x, y, z)\<close> of the \<open>(21, 3)\<close> array. The source computes in
  double-precision floats; the model computes in \<^typ>\<open>real\<close>, so every comparison
  against a threshold is the exact one.
\<close>

type_synonym point = "real \<times> real \<times> real"

definition px :: "point \<Rightarrow> real" where "px p = fst p"
definition py :: "point \<Rightarrow> real" where "py p = fst (snd p)"
definition pz :: "point \<Rightarrow> real" where "pz p = snd (snd p)"

text \<open>\<^verbatim>\<open>np.linalg.norm(a[:2] - b[:2])\<close> and \<^verbatim>\<open>np.linalg.norm(a - b)\<close>.\<close>

definition norm_xy :: "point \<Rightarrow> point \<Rightarrow> real" where
  "norm_xy a b = sqrt ((px a - px b)\<^sup>2 + (py a - py b)\<^sup>2)"

definition norm_xyz :: "point \<Rightarrow> point \<Rightarrow> real" where
  "norm_xyz a b = sqrt ((px a - px b)\<^sup>2 + (py a - py b)\<^sup>2 + (pz a - pz b)\<^sup>2)"

record HandLandmarks =
  landmarks :: "point list"
  handedness :: string
  confidence :: real
  bbox :: "int \<times> int \<times> int \<times> int"

text \<open>
  The detector builds every hand from the 21 landmarks of the tracker; the properties
  below index the array exactly where the source does.  A list of another length is not
  a hand the source can hold (indexing it would raise), so a theorem whose statement
  depends on the landmarks read is stated for valid hands.
\<close>

definition valid_hand :: "HandLandmarks \<Rightarrow> bool" where
  "valid_hand h \<longleftrightarrow> length (landmarks h) = 21"

definition wrist :: "HandLandmarks \<Rightarrow> point" where "wrist h = landmarks h ! 0"
definition thumb_tip :: "HandLandmarks \<Rightarrow> point" where "thumb_tip h = landmarks h ! 4"
definition index_tip :: "HandLandmarks \<Rightarrow> point" where "index_tip h = landmarks h ! 8"

definition finger_is_extended :: "HandLandmarks \<Rightarrow> nat list \<Rightarrow> bool" where
  "finger_is_extended h finger_landmarks =
     (let pip = landmarks h ! (finger_landmarks ! 1);
          tip = landmarks h ! (finger_landmarks ! 3);
          tip_dist = norm_xy tip (wrist h);
          pip_dist = norm_xy pip (wrist h)
      in tip_dist > pip_dist)"

text \<open>
  \<^verbatim>\<open>get_extended_fingers\<close>: the thumb by the sign of an x-difference that depends on
  the handedness, then index, middle, ring and pinky (the dictionary's items after the
  first, in insertion order) by \<open>finger_is_extended\<close>.
\<close>

definition fingers :: "(string \<times> nat list) list" where
  "fingers = [(''thumb'', [1, 2, 3, 4]), (''index'', [5, 6, 7, 8]),
              (''middle'', [9, 10, 11, 12]), (''ring'', [13, 14, 15, 16]),
              (''pinky'', [17, 18, 19, 20])]"

definition get_extended_fingers :: "HandLandmarks \<Rightarrow> string list" where
  "get_extended_fingers h =
     (let thumb_tip = landmarks h ! 4;
          thumb_mcp = landmarks h ! 2;
          thumb = (if handedness h = ''Right''
                   then (if px thumb_tip < px thumb_mcp then [''thumb''] else [])
                   else (if px thumb_tip > px thumb_mcp then [''thumb''] else []))
      in thumb @ map fst (filter (\<lambda>(finger, lms). finger_is_extended h lms) (tl fingers)))"


section \<open>The classifier (gestures/recognizer.py)\<close>

definition PINCH_THRESHOLD :: real where
  "PINCH_THRESHOLD = 22 / 100"

text \<open>
  \<^verbatim>\<open>_classify_gesture\<close>, branch by branch.  A thumbs-up candidate whose thumb tip is
  within 15 pixels of the wrist height falls through to the later tests, as in the source.
\<close>

definition classify_gesture :: "string list \<Rightarrow> real \<Rightarrow> HandLandmarks \<Rightarrow> GestureType" where
  "classify_gesture extended thumb_index_dist hand =
     (let num_extended = length extended in
      if thumb_index_dist < PINCH_THRESHOLD then
        (if ''middle'' \<in> set extended \<and> ''ring'' \<in> set extended \<and> ''pinky'' \<in> set extended
         then OK_SIGN else PINCH)
      else if num_extended = 0 then FIST
      else if num_extended = 1 \<and> ''thumb'' \<in> set extended
              \<and> py (thumb_tip hand) < py (wrist hand) - 15 then THUMBS_UP
      else if num_extended = 1 \<and> ''thumb'' \<in> set extended
              \<and> py (thumb_tip hand) > py (wrist hand) + 15 then THUMBS_DOWN
      else if ''index'' \<in> set extended \<and> num_extended \<le> 2
              \<and> (num_extended = 1 \<or> (num_extended = 2 \<and> ''thumb'' \<in> set extended)) then POINT
      else if num_extended = 2 \<and> ''index'' \<in> set extended \<and> ''middle'' \<in> set extended then PEACE
      else if num_extended = 2 \<and> ''index'' \<in> set extended \<and> ''pinky'' \<in> set extended then ROCK
      else if num_extended = 3 \<and> ''index'' \<in> set extended \<and> ''middle'' \<in> set extended
              \<and> ''ring'' \<in> set extended then THREE_FINGERS
      else if num_extended \<ge> 3 then OPEN_PALM
      else NONE)"

text \<open>
  \<^verbatim>\<open>_normalized_distance\<close>.  \<open>hand_size\<close> is its local of that name: the norm of the
  full three-coordinate difference between landmark 9 and the wrist.
\<close>

definition hand_size :: "HandLandmarks \<Rightarrow> real" where
  "hand_size hand = norm_xyz (landmarks hand ! 9) (wrist hand)"

definition normalized_distance :: "point \<Rightarrow> point \<Rightarrow> HandLandmarks \<Rightarrow> real" where
  "normalized_distance point1 point2 hand =
     (if hand_size hand < 1 then 1
      else norm_xy point1 point2 / hand_size hand)"

text \<open>
  The gesture computed by \<^verbatim>\<open>recognize\<close> for one hand: the extended fingers, the
  normalized thumb-to-index distance, then the classifier.
\<close>

definition recognize_gesture :: "HandLandmarks \<Rightarrow> GestureType" where
  "recognize_gesture hand =
     (let extended = get_extended_fingers hand;
          thumb_index_dist = normalized_distance (thumb_tip hand) (index_tip hand) hand
      in classify_gesture extended thumb_index_dist hand)"


section \<open>The dispatcher (main.py, class JarvisController)\<close>

text \<open>
  The calls the handler makes on the pointer, keyboard and speech collaborators, in the
  order it makes them: \<^verbatim>\<open>pyautogui.moveTo\<close>, \<^verbatim>\<open>click\<close>, \<^verbatim>\<open>rightClick\<close>,
  \<^verbatim>\<open>middleClick\<close>, \<^verbatim>\<open>mouseDown\<close>, \<^verbatim>\<open>mouseUp\<close>, \<^verbatim>\<open>scroll\<close>, \<^verbatim>\<open>press\<close> and
  \<^verbatim>\<open>self._say\<close>.  The specification calls them PointerMove, PointerClick(left),
  PointerClick(right), PointerClick(middle), PointerDown, PointerUp, ScrollUp/ScrollDown,
  VolumeUp/VolumeDown and VoiceActivateSignal.  Console prints are not modelled.
\<close>

datatype action =
    MoveTo int int | Click | RightClick | MiddleClick | MouseDown | MouseUp
  | Scroll int | Press string | Say string

text \<open>The state fields of the controller that the gesture handler reads or writes.\<close>

record Controller =
  screen_width :: int
  screen_height :: int
  last_cursor_pos :: "int \<times> int"
  gesture_cooldown :: real
  dragging :: bool
  volume_mode :: bool
  volume_start_y :: real
  current_volume :: int
  selection_mode :: bool
  selection_start :: "(int \<times> int) option"

text \<open>The state that \<^verbatim>\<open>__init__\<close> sets up, for a screen of the given size.\<close>

definition init_controller :: "int \<Rightarrow> int \<Rightarrow> Controller" where
  "init_controller w h =
     \<lparr>screen_width = w, screen_height = h, last_cursor_pos = (0, 0),
      gesture_cooldown = 0, dragging = False,
      volume_mode = False, volume_start_y = 0, current_volume = 50,
      selection_mode = False, selection_start = None\<rparr>"

definition SCREEN_MARGIN :: int where
  "SCREEN_MARGIN = 30"

text \<open>Python's \<^verbatim>\<open>int()\<close> on a float truncates toward zero.\<close>

definition py_int :: "real \<Rightarrow> int" where
  "py_int r = (if 0 \<le> r then \<lfloor>r\<rfloor> else \<lceil>r\<rceil>)"

text \<open>
  The palm coordinates are numpy floats, so a division by zero (an empty frame) does not
  raise: it yields an infinity or a NaN.  \<open>clamp01\<close> is \<^verbatim>\<open>max(0, min(1, v))\<close> with
  Python's \<^verbatim>\<open>min\<close> and \<^verbatim>\<open>max\<close>, which keep their first argument unless a later one
  compares strictly smaller (larger); every comparison with NaN is false.
\<close>

datatype npfloat = Fin real | PosInf | NegInf | NaN

definition np_div :: "real \<Rightarrow> real \<Rightarrow> npfloat" where
  "np_div a b =
     (if b \<noteq> 0 then Fin (a / b)
      else if 0 < a then PosInf else if a < 0 then NegInf else NaN)"

fun clamp01 :: "npfloat \<Rightarrow> real" where
  "clamp01 (Fin v) = max 0 (min 1 v)"
| "clamp01 PosInf = 1"
| "clamp01 NegInf = 0"
| "clamp01 NaN = 1"

text \<open>
  \<^verbatim>\<open>_move_cursor\<close>, up to the margins: the raw target position on the screen.
\<close>

definition screen_target :: "Controller \<Rightarrow> real \<times> real \<Rightarrow> int \<Rightarrow> int \<Rightarrow> int \<times> int" where
  "screen_target s palm_pos frame_w frame_h =
     (let margin_x = real_of_int frame_w * (2 / 10);
          margin_y = real_of_int frame_h * (2 / 10);
          norm_x = np_div (fst palm_pos - margin_x) (real_of_int frame_w - 2 * margin_x);
          norm_y = np_div (snd palm_pos - margin_y) (real_of_int frame_h - 2 * margin_y);
          norm_x = clamp01 norm_x;
          norm_y = clamp01 norm_y;
          screen_x = py_int (norm_x * real_of_int (screen_width s));
          screen_y = py_int (norm_y * real_of_int (screen_height s));
          screen_x = max SCREEN_MARGIN (min screen_x (screen_width s - SCREEN_MARGIN));
          screen_y = max SCREEN_MARGIN (min screen_y (screen_height s - SCREEN_MARGIN))
      in (screen_x, screen_y))"

text \<open>
  The rest of \<^verbatim>\<open>_move_cursor\<close>: smoothing against the last emitted position (a last
  position of \<open>(0, 0)\<close> means none is recorded), the move, and the update of the state.
\<close>

definition smooth_step :: "int \<times> int \<Rightarrow> int \<times> int \<Rightarrow> int \<times> int" where
  "smooth_step last_pos screen =
     (let smoothing = 3 / 10 :: real;
          (screen_x, screen_y) = screen;
          (last_x, last_y) = last_pos;
          (last_x, last_y) = (if last_x = 0 \<and> last_y = 0 then (screen_x, screen_y)
                              else (last_x, last_y));
          smooth_x = py_int (real_of_int last_x
                       + real_of_int (screen_x - last_x) * (1 - smoothing));
          smooth_y = py_int (real_of_int last_y
                       + real_of_int (screen_y - last_y) * (1 - smoothing))
      in (smooth_x, smooth_y))"

definition move_cursor ::
    "Controller \<Rightarrow> real \<times> real \<Rightarrow> int \<Rightarrow> int \<Rightarrow> action list \<times> Controller" where
  "move_cursor s palm_pos frame_w frame_h =
     (let (smooth_x, smooth_y) =
            smooth_step (last_cursor_pos s) (screen_target s palm_pos frame_w frame_h)
      in ([MoveTo smooth_x smooth_y], s\<lparr>last_cursor_pos := (smooth_x, smooth_y)\<rparr>))"

text \<open>
  What one call of \<^verbatim>\<open>_handle_gesture\<close> reads from its arguments and its environment:
  the gesture and the held flag of the gesture state, the first two coordinates of the
  palm centre of the hand, the frame's width and height, the clock (\<^verbatim>\<open>time.time()\<close>)
  and the pointer position (\<^verbatim>\<open>pyautogui.position()\<close>).  Times and palm coordinates,
  floats in the source, are reals here.
\<close>

record frame_input =
  gesture :: GestureType
  is_held :: bool
  palm :: "real \<times> real"
  frame_w :: int
  frame_h :: int
  current_time :: real
  cursor_position :: "int \<times> int"

text \<open>
  The volume branch of the handler (gesture \<^verbatim>\<open>PINCH\<close>): entering the mode on the first
  held frame, pressing the volume key at most five times on the later ones, leaving the
  mode when the pinch is no longer held.
\<close>

definition pinch_branch :: "Controller \<Rightarrow> frame_input \<Rightarrow> action list \<times> Controller" where
  "pinch_branch s i =
     (if is_held i then
        (if \<not> volume_mode s then
           ([], s\<lparr>volume_mode := True, volume_start_y := snd (palm i)\<rparr>)
         else
           (let delta_y = volume_start_y s - snd (palm i);
                volume_change = py_int (delta_y / 3);
                new_volume = max 0 (min 100 (current_volume s + volume_change))
            in if new_volume \<noteq> current_volume s then
                 ((if new_volume > current_volume s
                   then replicate (nat (min 5 (new_volume - current_volume s))) (Press ''volumeup'')
                   else replicate (nat (min 5 (current_volume s - new_volume))) (Press ''volumedown'')),
                  s\<lparr>current_volume := new_volume, volume_start_y := snd (palm i)\<rparr>)
               else ([], s)))
      else
        (if volume_mode s then ([], s\<lparr>volume_mode := False\<rparr>) else ([], s)))"

text \<open>The selection branch of the handler (gesture \<^verbatim>\<open>OK_SIGN\<close>).\<close>

definition ok_sign_branch :: "Controller \<Rightarrow> frame_input \<Rightarrow> action list \<times> Controller" where
  "ok_sign_branch s i =
     (if is_held i then
        (if \<not> selection_mode s then
           ([MouseDown], s\<lparr>selection_mode := True, selection_start := Some (cursor_position i)\<rparr>)
         else move_cursor s (palm i) (frame_w i) (frame_h i))
      else
        (if selection_mode s then ([MouseUp], s\<lparr>selection_mode := False\<rparr>) else ([], s)))"

text \<open>
  The \<^verbatim>\<open>if\<close>/\<^verbatim>\<open>elif\<close> chain of \<^verbatim>\<open>_handle_gesture\<close>, in the order of the source; a
  gesture that matches no branch (among them \<^verbatim>\<open>NONE\<close>, \<^verbatim>\<open>HOOK\<close> and every gesture
  but \<^verbatim>\<open>PINCH\<close> and \<^verbatim>\<open>OK_SIGN\<close> that is not held) does nothing here.
\<close>

definition gesture_branch :: "Controller \<Rightarrow> frame_input \<Rightarrow> action list \<times> Controller" where
  "gesture_branch s i =
     (let g = gesture i; held = is_held i; now = current_time i in
      if g = OPEN_PALM \<and> held then move_cursor s (palm i) (frame_w i) (frame_h i)
      else if g = POINT \<and> held then ([Click], s\<lparr>gesture_cooldown := now + 5 / 10\<rparr>)
      else if g = PEACE \<and> held then ([RightClick], s\<lparr>gesture_cooldown := now + 5 / 10\<rparr>)
      else if g = FIST \<and> held then
        (let (down, s1) = (if \<not> dragging s then ([MouseDown], s\<lparr>dragging := True\<rparr>)
                           else ([], s));
             (mv, s2) = move_cursor s1 (palm i) (frame_w i) (frame_h i)
         in (down @ mv, s2))
      else if g = THUMBS_UP \<and> held then ([Scroll 3], s\<lparr>gesture_cooldown := now + 2 / 10\<rparr>)
      else if g = THUMBS_DOWN \<and> held then ([Scroll (- 3)], s\<lparr>gesture_cooldown := now + 2 / 10\<rparr>)
      else if g = THREE_FINGERS \<and> held then ([MiddleClick], s\<lparr>gesture_cooldown := now + 5 / 10\<rparr>)
      else if g = PINCH then pinch_branch s i
      else if g = ROCK \<and> held then
        ([Say ''Voice command mode activated''], s\<lparr>gesture_cooldown := now + 2\<rparr>)
      else if g = OK_SIGN then ok_sign_branch s i
      else ([], s))"

text \<open>
  \<^verbatim>\<open>_handle_gesture\<close>: the early return while the clock is before the cooldown
  timestamp, the branch of the gesture, then the release of a drag when the gesture is
  not a fist.  The result is the list of emitted calls and the new state.
\<close>

definition handle_gesture :: "Controller \<Rightarrow> frame_input \<Rightarrow> action list \<times> Controller" where
  "handle_gesture s i =
     (if current_time i < gesture_cooldown s then ([], s)
      else
        (let (acts, s1) = gesture_branch s i
         in if gesture i \<noteq> FIST \<and> dragging s1
            then (acts @ [MouseUp], s1\<lparr>dragging := False\<rparr>)
            else (acts, s1)))"

text \<open>
  A run of the gesture loop: one call of the handler per frame, each on the state the
  previous one left.  \<open>run\<close> returns the emitted calls frame by frame and the last state.
\<close>

fun run :: "Controller \<Rightarrow> frame_input list \<Rightarrow> action list list \<times> Controller" where
  "run s [] = ([], s)"
| "run s (i # is) =
     (let (acts, s1) = handle_gesture s i;
          (rest, s2) = run s1 is
      in (acts # rest, s2))"

text \<open>The clock never runs backwards along a run.\<close>

definition chronological :: "frame_input list \<Rightarrow> bool" where
  "chronological is \<longleftrightarrow> sorted (map current_time is)"

text \<open>
  Feeding \<^verbatim>\<open>_move_cursor\<close> the same palm position and frame size for \<open>n\<close> frames.
\<close>

fun move_cursor_n :: "nat \<Rightarrow> Controller \<Rightarrow> real \<times> real \<Rightarrow> int \<Rightarrow> int \<Rightarrow> Controller" where
  "move_cursor_n 0 s palm_pos fw fh = s"
| "move_cursor_n (Suc n) s palm_pos fw fh =
     move_cursor_n n (snd (move_cursor s palm_pos fw fh)) palm_pos fw fh"


text \<open>
  One axis of the smoothing in \<open>smooth_step\<close>, from a recorded last coordinate towards
  the target coordinate.
\<close>

definition smooth_axis :: "int \<Rightarrow> int \<Rightarrow> int" where
  "smooth_axis last_c screen_c =
     py_int (real_of_int last_c + real_of_int (screen_c - last_c) * (1 - 3 / 10))"


text \<open>The cursor position recorded after \<open>n\<close> such frames.\<close>

definition cursor_after :: "nat \<Rightarrow> Controller \<Rightarrow> real \<times> real \<Rightarrow> int \<Rightarrow> int \<Rightarrow> int \<times> int" where
  "cursor_after n s palm_pos fw fh = last_cursor_pos (move_cursor_n n s palm_pos fw fh)"

text \<open>
  An invariant of the runs whose clock never runs backwards: while a drag is active, the
  cooldown timestamp is not later than the time \<open>t\<close> of the last call.
\<close>

definition drag_inv :: "Controller \<Rightarrow> real \<Rightarrow> bool" where
  "drag_inv s t \<longleftrightarrow> (dragging s \<longrightarrow> gesture_cooldown s \<le> t)"


section \<open>Example inputs\<close>

text \<open>
  A hand whose 21 landmarks coincide (a degenerate hand of size zero); a right hand making
  an OK sign, thumb tip on the index tip and the other three fingers stretched; and a
  frame of the 640 by 480 camera with the palm in its centre.
\<close>

definition zero_hand :: HandLandmarks where
  "zero_hand = \<lparr>landmarks = replicate 21 (0, 0, 0), handedness = ''Right'',
                 confidence = 1, bbox = (0, 0, 0, 0)\<rparr>"

definition frame_at :: "GestureType \<Rightarrow> bool \<Rightarrow> real \<Rightarrow> frame_input" where
  "frame_at g held t =
     \<lparr>gesture = g, is_held = held, palm = (320, 240), frame_w = 640, frame_h = 480,
      current_time = t, cursor_position = (0, 0)\<rparr>"

definition ok_hand :: HandLandmarks where
  "ok_hand = \<lparr>landmarks =
      [(300, 400, 0),
       (270, 380, 0), (255, 350, 0), (245, 320, 0), (250, 300, 0),
       (270, 300, 0), (265, 310, 0), (255, 295, 0), (250, 300, 0),
       (300, 300, 0), (300, 260, 0), (300, 230, 0), (300, 200, 0),
       (320, 305, 0), (325, 270, 0), (328, 245, 0), (330, 220, 0),
       (340, 320, 0), (345, 290, 0), (350, 270, 0), (355, 250, 0)],
     handedness = ''Right'', confidence = 1, bbox = (245, 200, 110, 200)\<rparr>"


section \<open>The classifier: pinch family, open palm, degenerate hands, HOOK\<close>

lemma classify_not_hook: "classify_gesture extended d hand \<noteq> HOOK"
  unfolding classify_gesture_def Let_def by (simp split: if_split)

lemma classify_far_not_pinch:
  "PINCH_THRESHOLD \<le> d \<Longrightarrow>
   classify_gesture extended d hand \<noteq> PINCH \<and> classify_gesture extended d hand \<noteq> OK_SIGN"
  unfolding classify_gesture_def Let_def by (simp split: if_split)

lemma five_digits_length:
  assumes "{''thumb'', ''index'', ''middle'', ''ring'', ''pinky''} \<subseteq> set extended"
  shows "5 \<le> length extended"
proof -
  have "card {''thumb'', ''index'', ''middle'', ''ring'', ''pinky''} \<le> card (set extended)"
    using assms by (intro card_mono) auto
  moreover have "card {''thumb'', ''index'', ''middle'', ''ring'', ''pinky''} = 5" by simp
  ultimately show ?thesis using card_length [of extended] by linarith
qed

lemma zero_hand_size: "hand_size zero_hand = 0"
  by (simp add: hand_size_def zero_hand_def norm_xyz_def wrist_def px_def py_def pz_def)

lemma ok_hand_extended:
  "get_extended_fingers ok_hand = [''thumb'', ''index'', ''middle'', ''ring'', ''pinky'']"
  by (simp add: get_extended_fingers_def ok_hand_def finger_is_extended_def fingers_def
        wrist_def norm_xy_def px_def py_def)

lemma ok_hand_dist:
  "normalized_distance (thumb_tip ok_hand) (index_tip ok_hand) ok_hand = 0"
  by (simp add: normalized_distance_def hand_size_def norm_xyz_def norm_xy_def thumb_tip_def
        index_tip_def wrist_def ok_hand_def px_def py_def pz_def)

text \<open>
  Claim C4.  Whatever the list of extended fingers, a thumb-to-index distance below the
  pinch threshold classifies as \<open>OK_SIGN\<close> when middle, ring and pinky are all extended
  and as \<open>PINCH\<close> otherwise; no other gesture is possible.
\<close>

theorem pinch_family_first:
  "d < PINCH_THRESHOLD \<Longrightarrow>
   classify_gesture extended d hand =
     (if {''middle'', ''ring'', ''pinky''} \<subseteq> set extended then OK_SIGN else PINCH)"
  by (simp add: classify_gesture_def)

theorem pinch_family_first_witness:
  "(1 / 10 :: real) < PINCH_THRESHOLD \<and>
   classify_gesture [''index'', ''middle'', ''ring'', ''pinky''] (1 / 10) zero_hand = OK_SIGN \<and>
   classify_gesture [''thumb'', ''index'', ''middle''] (1 / 10) zero_hand = PINCH"
  using pinch_family_first [of "1 / 10" "[''index'', ''middle'', ''ring'', ''pinky'']" zero_hand]
        pinch_family_first [of "1 / 10" "[''thumb'', ''index'', ''middle'']" zero_hand]
  by (simp add: PINCH_THRESHOLD_def)

text \<open>
  Claim C5 says that a frame with all five digits extended always classifies as
  \<open>OPEN_PALM\<close>.  The pinch test comes first in the classifier, so it does not: the hand
  \<open>ok_hand\<close> has all five digits extended, its thumb tip touches its index tip, and it
  classifies as \<open>OK_SIGN\<close>.
\<close>

theorem five_digits_pinched_is_ok_sign:
  "valid_hand ok_hand \<and>
   get_extended_fingers ok_hand = [''thumb'', ''index'', ''middle'', ''ring'', ''pinky''] \<and>
   recognize_gesture ok_hand = OK_SIGN \<and>
   classify_gesture [''thumb'', ''index'', ''middle'', ''ring'', ''pinky''] (1 / 10) ok_hand
     \<noteq> OPEN_PALM"
proof -
  have "recognize_gesture ok_hand = OK_SIGN"
    unfolding recognize_gesture_def Let_def ok_hand_extended ok_hand_dist
    by (simp add: classify_gesture_def PINCH_THRESHOLD_def)
  moreover have "valid_hand ok_hand" by (simp add: valid_hand_def ok_hand_def)
  moreover have
    "classify_gesture [''thumb'', ''index'', ''middle'', ''ring'', ''pinky''] (1 / 10) ok_hand
       \<noteq> OPEN_PALM"
    by (simp add: classify_gesture_def PINCH_THRESHOLD_def)
  ultimately show ?thesis using ok_hand_extended by blast
qed

text \<open>
  Claim C5, amended.  When all five digits are among the extended fingers, the
  classification is \<open>OPEN_PALM\<close> if the thumb-to-index distance is at least the pinch
  threshold and \<open>OK_SIGN\<close> if it is below; it is never \<open>NONE\<close>.
\<close>

theorem five_digits_classification:
  assumes "{''thumb'', ''index'', ''middle'', ''ring'', ''pinky''} \<subseteq> set extended"
  shows "classify_gesture extended d hand = (if d < PINCH_THRESHOLD then OK_SIGN else OPEN_PALM)"
proof -
  have len: "5 \<le> length extended" by (rule five_digits_length [OF assms])
  have mem: "''middle'' \<in> set extended" "''ring'' \<in> set extended" "''pinky'' \<in> set extended"
    using assms by auto
  from len have ne: "length extended \<noteq> 0" "length extended \<noteq> 1" "length extended \<noteq> 2"
    "length extended \<noteq> 3" "\<not> length extended \<le> 2" "3 \<le> length extended" by linarith+
  show ?thesis unfolding classify_gesture_def Let_def using mem ne by simp
qed

theorem five_digits_classification_witness:
  "{''thumb'', ''index'', ''middle'', ''ring'', ''pinky''}
     \<subseteq> set [''thumb'', ''index'', ''middle'', ''ring'', ''pinky''] \<and>
   classify_gesture [''thumb'', ''index'', ''middle'', ''ring'', ''pinky''] (1 / 2) ok_hand
     = OPEN_PALM \<and>
   classify_gesture [''thumb'', ''index'', ''middle'', ''ring'', ''pinky''] 0 ok_hand = OK_SIGN"
proof -
  have sub: "{''thumb'', ''index'', ''middle'', ''ring'', ''pinky''}
     \<subseteq> set [''thumb'', ''index'', ''middle'', ''ring'', ''pinky'']" by simp
  from five_digits_classification [OF sub, of "1 / 2" ok_hand]
    five_digits_classification [OF sub, of 0 ok_hand] sub
  show ?thesis by (simp add: PINCH_THRESHOLD_def)
qed

text \<open>
  Claim C8.  For a hand whose reference span (wrist to middle knuckle) is below 1, the
  normalized distance between any two points is the sentinel 1, whatever the points are
  (the quotient by the hand size is on the other branch), and with the pinch threshold
  of 0.22 such a hand never classifies as \<open>PINCH\<close> or \<open>OK_SIGN\<close>, whichever fingers are
  extended.
\<close>

theorem degenerate_hand_sentinel:
  assumes "valid_hand hand" and "hand_size hand < 1"
  shows "normalized_distance point1 point2 hand = 1 \<and>
         classify_gesture extended (normalized_distance point1 point2 hand) hand
           \<notin> {PINCH, OK_SIGN} \<and>
         recognize_gesture hand \<notin> {PINCH, OK_SIGN}"
proof -
  have one: "normalized_distance p q hand = 1" for p q
    using assms(2) by (simp add: normalized_distance_def)
  have far: "PINCH_THRESHOLD \<le> 1" by (simp add: PINCH_THRESHOLD_def)
  from classify_far_not_pinch [OF far] one show ?thesis
    by (simp add: recognize_gesture_def)
qed

theorem degenerate_hand_sentinel_witness:
  "valid_hand zero_hand \<and> hand_size zero_hand < 1 \<and>
   normalized_distance (thumb_tip zero_hand) (index_tip zero_hand) zero_hand = 1 \<and>
   classify_gesture [''middle'', ''ring'', ''pinky'']
      (normalized_distance (thumb_tip zero_hand) (index_tip zero_hand) zero_hand) zero_hand
     \<notin> {PINCH, OK_SIGN} \<and>
   recognize_gesture zero_hand \<notin> {PINCH, OK_SIGN}"
proof -
  have v: "valid_hand zero_hand" by (simp add: valid_hand_def zero_hand_def)
  have h: "hand_size zero_hand < 1" by (simp add: zero_hand_size)
  from degenerate_hand_sentinel [OF v h] v h show ?thesis by blast
qed

text \<open>
  Claim C10.  The classifier never returns \<open>HOOK\<close>, for any list of extended fingers,
  any distance and any hand, so neither does the recognizer; and the action table has no
  entry for \<open>HOOK\<close> or for \<open>NONE\<close>: looking either up yields nothing.
\<close>

theorem hook_unreachable:
  "classify_gesture extended d hand \<noteq> HOOK \<and> recognize_gesture hand \<noteq> HOOK \<and>
   get_gesture_action HOOK = None \<and> get_gesture_action NONE = None"
proof -
  have a: "get_gesture_action HOOK = None"
    by (simp add: get_gesture_action_def GESTURE_ACTIONS_def)
  have b: "get_gesture_action NONE = None"
    by (simp add: get_gesture_action_def GESTURE_ACTIONS_def)
  have c: "recognize_gesture hand \<noteq> HOOK"
    unfolding recognize_gesture_def Let_def by (rule classify_not_hook)
  from a b c classify_not_hook show ?thesis by blast
qed


section \<open>The dispatcher: cooldown gate, drag, modes\<close>

subsection \<open>What each branch of the handler does\<close>

lemma move_cursor_eq:
  "move_cursor s p fw fh =
     ([MoveTo (fst (smooth_step (last_cursor_pos s) (screen_target s p fw fh)))
              (snd (smooth_step (last_cursor_pos s) (screen_target s p fw fh)))],
      s\<lparr>last_cursor_pos := smooth_step (last_cursor_pos s) (screen_target s p fw fh)\<rparr>)"
  by (simp add: move_cursor_def split: prod.split)

lemma screen_target_update:
  "screen_target (s\<lparr>dragging := b\<rparr>) p fw fh = screen_target s p fw fh"
  "screen_target (s\<lparr>last_cursor_pos := q\<rparr>) p fw fh = screen_target s p fw fh"
  by (simp_all add: screen_target_def)

lemma move_cursor_single:
  "\<exists>x y. fst (move_cursor s p fw fh) = [MoveTo x y]"
  by (simp add: move_cursor_eq)

lemma handle_gesture_in_cooldown:
  "current_time i < gesture_cooldown s \<Longrightarrow> handle_gesture s i = ([], s)"
  by (simp add: handle_gesture_def)

lemma gesture_branch_fist_held:
  assumes "gesture i = FIST" "is_held i"
  shows "gesture_branch s i =
     ((if dragging s then [] else [MouseDown]) @
        [MoveTo (fst (smooth_step (last_cursor_pos s)
                        (screen_target s (palm i) (frame_w i) (frame_h i))))
                (snd (smooth_step (last_cursor_pos s)
                        (screen_target s (palm i) (frame_w i) (frame_h i))))],
      s\<lparr>dragging := True,
        last_cursor_pos := smooth_step (last_cursor_pos s)
                             (screen_target s (palm i) (frame_w i) (frame_h i))\<rparr>)"
  using assms by (simp add: gesture_branch_def move_cursor_eq screen_target_update)

lemma gesture_branch_open_palm_held:
  assumes "gesture i = OPEN_PALM" "is_held i"
  shows "gesture_branch s i = move_cursor s (palm i) (frame_w i) (frame_h i)"
  using assms by (simp add: gesture_branch_def)

lemma gesture_branch_pinch:
  assumes "gesture i = PINCH"
  shows "gesture_branch s i = pinch_branch s i"
  using assms by (simp add: gesture_branch_def)

lemma gesture_branch_no_handler:
  assumes "gesture i = NONE \<or> gesture i = HOOK"
  shows "gesture_branch s i = ([], s)"
  using assms by (auto simp add: gesture_branch_def)

lemma pinch_branch_dragging: "dragging (snd (pinch_branch s i)) = dragging s"
  by (simp add: pinch_branch_def Let_def)

lemma ok_sign_branch_dragging: "dragging (snd (ok_sign_branch s i)) = dragging s"
  by (simp add: ok_sign_branch_def move_cursor_eq)

lemma gesture_branch_dragging:
  "gesture i \<noteq> FIST \<Longrightarrow> dragging (snd (gesture_branch s i)) = dragging s"
  by (simp add: gesture_branch_def Let_def move_cursor_eq pinch_branch_dragging
        ok_sign_branch_dragging)

lemma gesture_branch_fist_cooldown:
  "gesture i = FIST \<Longrightarrow> gesture_cooldown (snd (gesture_branch s i)) = gesture_cooldown s"
  by (simp add: gesture_branch_def Let_def move_cursor_eq split: prod.split)

lemma handle_gesture_not_fist:
  assumes "gesture_cooldown s \<le> current_time i" "gesture i \<noteq> FIST"
  shows "\<not> dragging (snd (handle_gesture s i))"
    and "dragging s \<Longrightarrow> MouseUp \<in> set (fst (handle_gesture s i))"
  using assms gesture_branch_dragging [of i s]
  by (auto simp add: handle_gesture_def split: prod.split)

lemma handle_open_palm_held:
  assumes "gesture_cooldown s \<le> current_time i" "is_held i" "gesture i = OPEN_PALM"
  shows "fst (handle_gesture s i) =
           fst (move_cursor s (palm i) (frame_w i) (frame_h i))
           @ (if dragging s then [MouseUp] else [])"
  using assms by (simp add: handle_gesture_def gesture_branch_open_palm_held move_cursor_eq)

lemma handle_fist_held:
  assumes "gesture_cooldown s \<le> current_time i" "is_held i" "gesture i = FIST"
  shows "handle_gesture s i =
     ((if dragging s then [] else [MouseDown])
        @ fst (move_cursor s (palm i) (frame_w i) (frame_h i)),
      (snd (move_cursor s (palm i) (frame_w i) (frame_h i)))\<lparr>dragging := True\<rparr>)"
  using assms by (simp add: handle_gesture_def gesture_branch_fist_held move_cursor_eq)

lemma handle_pinch_held:
  assumes "gesture_cooldown s \<le> current_time i" "is_held i" "gesture i = PINCH" "volume_mode s"
  shows "fst (handle_gesture s i) =
     (let new_volume = max 0 (min 100 (current_volume s
                          + py_int ((volume_start_y s - snd (palm i)) / 3)))
      in (if new_volume > current_volume s
          then replicate (nat (min 5 (new_volume - current_volume s))) (Press ''volumeup'')
          else replicate (nat (min 5 (current_volume s - new_volume))) (Press ''volumedown'')))
     @ (if dragging s then [MouseUp] else [])"
  using assms
  by (simp add: handle_gesture_def gesture_branch_pinch pinch_branch_def Let_def)

subsection \<open>The cooldown gate and the continuous gestures\<close>

text \<open>
  Claim C1 says that a held continuous gesture emits its action even while the clock is
  before the cooldown timestamp.  The handler returns before looking at the gesture: in
  the run below a click at time 10 sets the cooldown to 10.5, and the held open palm at
  10.2 and the held fist at 10.3 emit nothing.
\<close>

theorem cooldown_suppresses_continuous:
  "fst (run (init_controller 1920 1080)
          [frame_at POINT True 10, frame_at OPEN_PALM True (102 / 10),
           frame_at FIST True (103 / 10)]) = [[Click], [], []]"
  by code_simp

text \<open>
  Claim C1, amended.  While the clock is before the cooldown timestamp a call emits
  nothing and changes nothing, whatever the gesture, continuous or not.  At or after the
  cooldown timestamp, a held open palm emits one cursor move (followed by the release of
  a drag if one was active), a held fist emits one cursor move (preceded by the button
  press if no drag was active), and a held pinch in volume mode emits the volume key
  presses of the movement since the reference point, at most five, possibly none.
\<close>

theorem cooldown_gates_every_action:
  "(current_time i < gesture_cooldown s \<longrightarrow> handle_gesture s i = ([], s)) \<and>
   (gesture_cooldown s \<le> current_time i \<and> is_held i \<longrightarrow>
      (gesture i = OPEN_PALM \<longrightarrow>
         fst (handle_gesture s i) =
           fst (move_cursor s (palm i) (frame_w i) (frame_h i))
           @ (if dragging s then [MouseUp] else [])) \<and>
      (gesture i = FIST \<longrightarrow>
         fst (handle_gesture s i) =
           (if dragging s then [] else [MouseDown])
           @ fst (move_cursor s (palm i) (frame_w i) (frame_h i))) \<and>
      (gesture i = PINCH \<and> volume_mode s \<longrightarrow>
         fst (handle_gesture s i) =
           (let new_volume = max 0 (min 100 (current_volume s
                                + py_int ((volume_start_y s - snd (palm i)) / 3)))
            in (if new_volume > current_volume s
                then replicate (nat (min 5 (new_volume - current_volume s))) (Press ''volumeup'')
                else replicate (nat (min 5 (current_volume s - new_volume))) (Press ''volumedown'')))
           @ (if dragging s then [MouseUp] else []))) \<and>
   (\<exists>x y. fst (move_cursor s (palm i) (frame_w i) (frame_h i)) = [MoveTo x y])"
  using handle_gesture_in_cooldown [of i s] handle_open_palm_held [of s i]
    handle_fist_held [of s i] handle_pinch_held [of s i] move_cursor_single
  by simp

theorem cooldown_gates_every_action_witness:
  "current_time (frame_at OPEN_PALM True (102 / 10))
     < gesture_cooldown (snd (handle_gesture (init_controller 1920 1080) (frame_at POINT True 10))) \<and>
   fst (handle_gesture (snd (handle_gesture (init_controller 1920 1080) (frame_at POINT True 10)))
          (frame_at OPEN_PALM True (102 / 10))) = [] \<and>
   gesture_cooldown (snd (handle_gesture (init_controller 1920 1080) (frame_at POINT True 10)))
     \<le> current_time (frame_at FIST True 11) \<and>
   is_held (frame_at FIST True 11) \<and> gesture (frame_at FIST True 11) = FIST \<and>
   fst (handle_gesture (snd (handle_gesture (init_controller 1920 1080) (frame_at POINT True 10)))
          (frame_at FIST True 11)) = [MouseDown, MoveTo 960 540]"
proof -
  define s where "s = snd (handle_gesture (init_controller 1920 1080) (frame_at POINT True 10))"
  have a: "current_time (frame_at OPEN_PALM True (102 / 10)) < gesture_cooldown s"
    unfolding s_def by code_simp
  have b: "gesture_cooldown s \<le> current_time (frame_at FIST True 11)"
    unfolding s_def by code_simp
  have c: "is_held (frame_at FIST True 11)" "gesture (frame_at FIST True 11) = FIST"
    by (simp_all add: frame_at_def)
  have d: "\<not> dragging s" unfolding s_def by code_simp
  have e: "fst (move_cursor s (palm (frame_at FIST True 11)) (frame_w (frame_at FIST True 11))
                 (frame_h (frame_at FIST True 11))) = [MoveTo 960 540]"
    unfolding s_def by code_simp
  from cooldown_gates_every_action [of "frame_at OPEN_PALM True (102 / 10)" s] a
  have f: "fst (handle_gesture s (frame_at OPEN_PALM True (102 / 10))) = []" by simp
  from cooldown_gates_every_action [of "frame_at FIST True 11" s] b c d e
  have g: "fst (handle_gesture s (frame_at FIST True 11)) = [MouseDown, MoveTo 960 540]"
    by simp
  from a b c f g show ?thesis unfolding s_def by blast
qed

subsection \<open>Mode flags\<close>

text \<open>
  Claim C2 says that no reachable state has two of the flags \<open>dragging\<close>,
  \<open>volume_mode\<close> and \<open>selection_mode\<close> set.  Volume mode is left only by a call whose
  gesture is still \<open>PINCH\<close> but not held; a hand that goes from a held pinch to a held
  fist keeps \<open>volume_mode\<close> and sets \<open>dragging\<close>.  The run below is from the initial
  state, with the clock increasing.
\<close>

theorem modes_overlap_after_pinch_then_fist:
  "dragging (snd (run (init_controller 1920 1080)
       [frame_at PINCH False 1, frame_at PINCH True (11 / 10),
        frame_at FIST False 2, frame_at FIST True (21 / 10)])) \<and>
   volume_mode (snd (run (init_controller 1920 1080)
       [frame_at PINCH False 1, frame_at PINCH True (11 / 10),
        frame_at FIST False 2, frame_at FIST True (21 / 10)]))"
  by code_simp

subsection \<open>Release of a drag\<close>

lemma handle_gesture_drag_inv:
  assumes "drag_inv s t" "t \<le> current_time i"
  shows "drag_inv (snd (handle_gesture s i)) (current_time i)"
proof (cases "current_time i < gesture_cooldown s")
  case True
  with assms show ?thesis by (auto simp: handle_gesture_in_cooldown drag_inv_def)
next
  case False
  then have gate: "gesture_cooldown s \<le> current_time i" by simp
  show ?thesis
  proof (cases "gesture i = FIST")
    case True
    with gate gesture_branch_fist_cooldown [of i s] show ?thesis
      by (auto simp: handle_gesture_def drag_inv_def split: prod.split)
  next
    case False
    with handle_gesture_not_fist(1) [OF gate] show ?thesis by (simp add: drag_inv_def)
  qed
qed

lemma run_drag_inv:
  "sorted (t # map current_time is) \<Longrightarrow> drag_inv s t \<Longrightarrow>
   drag_inv (snd (run s is)) (last (t # map current_time is))"
proof (induction "is" arbitrary: s t)
  case Nil
  then show ?case by simp
next
  case (Cons i rest)
  from Cons.prems have le: "t \<le> current_time i"
    and srt: "sorted (current_time i # map current_time rest)"
    by simp_all
  have "drag_inv (snd (handle_gesture s i)) (current_time i)"
    by (rule handle_gesture_drag_inv [OF Cons.prems(2) le])
  from Cons.IH [OF srt this] show ?case
    by (simp add: split_beta Let_def)
qed

text \<open>
  Claim C3 says that every call whose gesture is not \<open>FIST\<close> leaves \<open>dragging\<close> false
  and emits \<open>MouseUp\<close> if a drag was active.  The handler reads the wall clock, and the
  early return of the cooldown gate comes before the release: in the run below the click
  at time 10 sets the cooldown to 10.5, the held fist at 10.6 starts a drag, and the clock
  then reads 10.2 (it was set back); the call with gesture \<open>NONE\<close> at 10.2 emits nothing
  and leaves the drag active.
\<close>

theorem drag_kept_when_clock_steps_back:
  "gesture (frame_at NONE False (102 / 10)) \<noteq> FIST \<and>
   dragging (snd (run (init_controller 1920 1080)
                    [frame_at POINT True 10, frame_at FIST True (106 / 10)])) \<and>
   fst (handle_gesture (snd (run (init_controller 1920 1080)
                               [frame_at POINT True 10, frame_at FIST True (106 / 10)]))
          (frame_at NONE False (102 / 10))) = [] \<and>
   dragging (snd (handle_gesture (snd (run (init_controller 1920 1080)
                                         [frame_at POINT True 10, frame_at FIST True (106 / 10)]))
                    (frame_at NONE False (102 / 10))))"
proof -
  have "gesture (frame_at NONE False (102 / 10)) \<noteq> FIST" by (simp add: frame_at_def)
  moreover have "dragging (snd (run (init_controller 1920 1080)
                    [frame_at POINT True 10, frame_at FIST True (106 / 10)]))"
    by code_simp
  moreover have "fst (handle_gesture (snd (run (init_controller 1920 1080)
                               [frame_at POINT True 10, frame_at FIST True (106 / 10)]))
          (frame_at NONE False (102 / 10))) = []"
    by code_simp
  moreover have "dragging (snd (handle_gesture (snd (run (init_controller 1920 1080)
                                         [frame_at POINT True 10, frame_at FIST True (106 / 10)]))
                    (frame_at NONE False (102 / 10))))"
    by code_simp
  ultimately show ?thesis by blast
qed

text \<open>
  Claim C3, amended.  In a run from the initial state whose clock never runs backwards,
  every call whose gesture is not \<open>FIST\<close> leaves \<open>dragging\<close> false, and emits
  \<open>MouseUp\<close> if \<open>dragging\<close> was true when it began.  (A drag can only begin at or after
  the cooldown timestamp and does not move it, so with such a clock the early return of
  the gate never skips the release.)
\<close>

theorem drag_released_when_not_fist:
  assumes "chronological (is @ [i])" and "gesture i \<noteq> FIST"
  shows "\<not> dragging (snd (handle_gesture (snd (run (init_controller w h) is)) i)) \<and>
         (dragging (snd (run (init_controller w h) is)) \<longrightarrow>
            MouseUp \<in> set (fst (handle_gesture (snd (run (init_controller w h) is)) i)))"
proof -
  define t where "t = hd (map current_time (is @ [i]))"
  define s where "s = snd (run (init_controller w h) is)"
  have srt: "sorted (map current_time is @ [current_time i])"
    using assms(1) by (simp add: chronological_def)
  have "sorted ((t # map current_time is) @ [current_time i])"
    using srt unfolding t_def by (cases "is") auto
  then have s1: "sorted (t # map current_time is)"
    and bound: "\<forall>x \<in> set (t # map current_time is). x \<le> current_time i"
    unfolding sorted_append by simp_all
  have "last (t # map current_time is) \<in> set (t # map current_time is)"
    by (rule last_in_set) simp
  with bound have le: "last (t # map current_time is) \<le> current_time i" by blast
  have "drag_inv (init_controller w h) t" by (simp add: drag_inv_def init_controller_def)
  from run_drag_inv [OF s1 this] have inv: "drag_inv s (last (t # map current_time is))"
    by (simp add: s_def)
  show ?thesis
  proof (cases "dragging s")
    case True
    with inv le have gate: "gesture_cooldown s \<le> current_time i" by (simp add: drag_inv_def)
    from handle_gesture_not_fist [OF gate assms(2)] show ?thesis by (simp add: s_def)
  next
    case False
    have "\<not> dragging (snd (handle_gesture s i))"
    proof (cases "current_time i < gesture_cooldown s")
      case True
      with False show ?thesis by (simp add: handle_gesture_in_cooldown)
    next
      case False
      then have "gesture_cooldown s \<le> current_time i" by simp
      from handle_gesture_not_fist(1) [OF this assms(2)] show ?thesis .
    qed
    with False show ?thesis by (simp add: s_def)
  qed
qed

theorem drag_released_when_not_fist_witness:
  "chronological ([frame_at FIST True 1] @ [frame_at NONE False 2]) \<and>
   gesture (frame_at NONE False 2) \<noteq> FIST \<and>
   dragging (snd (run (init_controller 1920 1080) [frame_at FIST True 1])) \<and>
   \<not> dragging (snd (handle_gesture (snd (run (init_controller 1920 1080) [frame_at FIST True 1]))
                   (frame_at NONE False 2))) \<and>
   MouseUp \<in> set (fst (handle_gesture (snd (run (init_controller 1920 1080) [frame_at FIST True 1]))
                   (frame_at NONE False 2)))"
proof -
  have c: "chronological ([frame_at FIST True 1] @ [frame_at NONE False 2])"
    by (simp add: chronological_def frame_at_def)
  have g: "gesture (frame_at NONE False 2) \<noteq> FIST" by (simp add: frame_at_def)
  have d: "dragging (snd (run (init_controller 1920 1080) [frame_at FIST True 1]))"
    by code_simp
  from drag_released_when_not_fist [OF c g, of 1920 1080] c g d show ?thesis by blast
qed


subsection \<open>Gestures without a handler\<close>

text \<open>
  Claim C7 says that a call with gesture \<open>NONE\<close> emits nothing and changes no mode
  flag.  The release of a drag at the end of the handler applies to every gesture but
  \<open>FIST\<close>: after a held fist has started a drag, the call with \<open>NONE\<close> emits
  \<open>MouseUp\<close> and clears \<open>dragging\<close>.
\<close>

theorem none_gesture_ends_drag:
  "dragging (snd (run (init_controller 1920 1080) [frame_at FIST True 1])) \<and>
   handle_gesture (snd (run (init_controller 1920 1080) [frame_at FIST True 1]))
      (frame_at NONE False 2)
     = ([MouseUp], (init_controller 1920 1080)\<lparr>last_cursor_pos := (960, 540)\<rparr>) \<and>
   \<not> dragging ((init_controller 1920 1080)\<lparr>last_cursor_pos := (960, 540)\<rparr>)"
  by code_simp

text \<open>
  Claim C7, amended.  A call whose gesture is \<open>NONE\<close> or \<open>HOOK\<close> never fails.  If no
  drag is active, or the clock is before the cooldown timestamp, it emits nothing and
  leaves the state as it is; if a drag is active and the cooldown has passed, it emits
  exactly \<open>MouseUp\<close> and clears \<open>dragging\<close>.  In both cases \<open>volume_mode\<close> and
  \<open>selection_mode\<close> keep their values.
\<close>

theorem no_handler_releases_drag_only:
  assumes "gesture i = NONE \<or> gesture i = HOOK"
  shows "handle_gesture s i =
     (if gesture_cooldown s \<le> current_time i \<and> dragging s
      then ([MouseUp], s\<lparr>dragging := False\<rparr>) else ([], s))"
  using assms gesture_branch_no_handler [OF assms, of s]
  by (auto simp add: handle_gesture_def)

theorem no_handler_releases_drag_only_witness:
  "(gesture (frame_at NONE False 2) = NONE \<or> gesture (frame_at NONE False 2) = HOOK) \<and>
   handle_gesture (snd (run (init_controller 1920 1080) [frame_at FIST True 1]))
      (frame_at NONE False 2)
     = ([MouseUp], (snd (run (init_controller 1920 1080) [frame_at FIST True 1]))\<lparr>dragging := False\<rparr>) \<and>
   handle_gesture (init_controller 1920 1080) (frame_at NONE False 2)
     = ([], init_controller 1920 1080)"
proof -
  define s where "s = snd (run (init_controller 1920 1080) [frame_at FIST True 1])"
  have g: "gesture (frame_at NONE False 2) = NONE \<or> gesture (frame_at NONE False 2) = HOOK"
    by (simp add: frame_at_def)
  have a: "gesture_cooldown s \<le> current_time (frame_at NONE False 2) \<and> dragging s"
    unfolding s_def by code_simp
  have b: "\<not> dragging (init_controller 1920 1080)" by (simp add: init_controller_def)
  from no_handler_releases_drag_only [OF g, of s] a
  have c: "handle_gesture s (frame_at NONE False 2) = ([MouseUp], s\<lparr>dragging := False\<rparr>)"
    by simp
  from no_handler_releases_drag_only [OF g, of "init_controller 1920 1080"] b
  have d: "handle_gesture (init_controller 1920 1080) (frame_at NONE False 2)
     = ([], init_controller 1920 1080)" by simp
  from g c d show ?thesis unfolding s_def by blast
qed

subsection \<open>Runs of held fists\<close>

lemma fist_run_dragging:
  assumes "dragging s"
    and "\<forall>j \<in> set is. gesture j = FIST \<and> is_held j \<and> gesture_cooldown s \<le> current_time j"
  shows "(\<exists>ps. length ps = length is \<and>
               fst (run s is) = map (\<lambda>q. [MoveTo (fst q) (snd q)]) ps) \<and>
         dragging (snd (run s is))"
  using assms
proof (induction "is" arbitrary: s)
  case Nil
  then show ?case by simp
next
  case (Cons i rest)
  define s1 where "s1 = (snd (move_cursor s (palm i) (frame_w i) (frame_h i)))\<lparr>dragging := True\<rparr>"
  from Cons.prems have i: "gesture_cooldown s \<le> current_time i" "is_held i" "gesture i = FIST"
    by simp_all
  obtain x y where mv: "fst (move_cursor s (palm i) (frame_w i) (frame_h i)) = [MoveTo x y]"
    using move_cursor_single by blast
  have step: "handle_gesture s i = ([MoveTo x y], s1)"
    using handle_fist_held [OF i] Cons.prems(1) mv by (simp add: s1_def)
  have cd: "gesture_cooldown s1 = gesture_cooldown s" by (simp add: s1_def move_cursor_eq)
  have d1: "dragging s1" by (simp add: s1_def)
  have "\<forall>j \<in> set rest. gesture j = FIST \<and> is_held j \<and> gesture_cooldown s1 \<le> current_time j"
    using Cons.prems(2) cd by simp
  from Cons.IH [OF d1 this] obtain ps where ps: "length ps = length rest"
    "fst (run s1 rest) = map (\<lambda>q. [MoveTo (fst q) (snd q)]) ps"
    and dr: "dragging (snd (run s1 rest))"
    by blast
  have "length ((x, y) # ps) = length (i # rest) \<and>
        fst (run s (i # rest)) = map (\<lambda>q. [MoveTo (fst q) (snd q)]) ((x, y) # ps)"
    using ps step by (simp add: split_beta)
  moreover have "dragging (snd (run s (i # rest)))" using dr step by (simp add: split_beta)
  ultimately show ?case by blast
qed

text \<open>
  Claim C6 says that every maximal run of held-fist calls emits its one \<open>MouseDown\<close> on
  its first call and a cursor move on every call.  In the run below the click at time 10
  sets the cooldown to 10.5; the held fist at 10.3, the first of its run, emits nothing,
  and the button press comes with the second, at 10.6.
\<close>

theorem fist_run_in_cooldown:
  "fst (run (init_controller 1920 1080)
          [frame_at POINT True 10, frame_at FIST True (103 / 10), frame_at FIST True (106 / 10),
           frame_at NONE False 11]) = [[Click], [], [MouseDown, MoveTo 960 540], [MouseUp]]"
  by code_simp

text \<open>
  Claim C6, amended.  For every run of consecutive held-fist calls that starts with no
  drag active and whose calls all come at or after the cooldown timestamp, the first call
  emits \<open>MouseDown\<close> followed by one cursor move, and every later call of the run emits
  one cursor move and nothing else: one \<open>MouseDown\<close> in the whole run.
\<close>

theorem fist_run_one_mouse_down:
  assumes "\<not> dragging s"
    and "\<forall>j \<in> set (i # is). gesture j = FIST \<and> is_held j \<and> gesture_cooldown s \<le> current_time j"
  shows "\<exists>p ps. length ps = length is \<and>
           fst (run s (i # is)) =
             [MouseDown, MoveTo (fst p) (snd p)] # map (\<lambda>q. [MoveTo (fst q) (snd q)]) ps"
proof -
  define s1 where "s1 = (snd (move_cursor s (palm i) (frame_w i) (frame_h i)))\<lparr>dragging := True\<rparr>"
  from assms(2) have i: "gesture_cooldown s \<le> current_time i" "is_held i" "gesture i = FIST"
    by simp_all
  obtain x y where mv: "fst (move_cursor s (palm i) (frame_w i) (frame_h i)) = [MoveTo x y]"
    using move_cursor_single by blast
  have step: "handle_gesture s i = ([MouseDown, MoveTo x y], s1)"
    using handle_fist_held [OF i] assms(1) mv by (simp add: s1_def)
  have cd: "gesture_cooldown s1 = gesture_cooldown s" by (simp add: s1_def move_cursor_eq)
  have d1: "dragging s1" by (simp add: s1_def)
  have "\<forall>j \<in> set is. gesture j = FIST \<and> is_held j \<and> gesture_cooldown s1 \<le> current_time j"
    using assms(2) cd by simp
  from fist_run_dragging [OF d1 this] obtain ps where ps: "length ps = length is"
    "fst (run s1 is) = map (\<lambda>q. [MoveTo (fst q) (snd q)]) ps"
    by blast
  have "length ps = length is \<and>
        fst (run s (i # is)) =
          [MouseDown, MoveTo (fst (x, y)) (snd (x, y))] # map (\<lambda>q. [MoveTo (fst q) (snd q)]) ps"
    using ps step by (simp add: split_beta)
  then show ?thesis by blast
qed

theorem fist_run_one_mouse_down_witness:
  "\<not> dragging (init_controller 1920 1080) \<and>
   gesture (frame_at FIST True 1) = FIST \<and> is_held (frame_at FIST True 1) \<and>
   gesture_cooldown (init_controller 1920 1080) \<le> current_time (frame_at FIST True 1) \<and>
   gesture (frame_at FIST True 2) = FIST \<and> is_held (frame_at FIST True 2) \<and>
   gesture_cooldown (init_controller 1920 1080) \<le> current_time (frame_at FIST True 2) \<and>
   (\<exists>p ps. length ps = length [frame_at FIST True 2] \<and>
      fst (run (init_controller 1920 1080) [frame_at FIST True 1, frame_at FIST True 2])
        = [MouseDown, MoveTo (fst p) (snd p)] # map (\<lambda>q. [MoveTo (fst q) (snd q)]) ps) \<and>
   fst (run (init_controller 1920 1080) [frame_at FIST True 1, frame_at FIST True 2])
     = [[MouseDown, MoveTo 960 540], [MoveTo 960 540]]"
proof -
  have a: "\<not> dragging (init_controller 1920 1080)" by (simp add: init_controller_def)
  have f1: "gesture (frame_at FIST True 1) = FIST \<and> is_held (frame_at FIST True 1) \<and>
     gesture_cooldown (init_controller 1920 1080) \<le> current_time (frame_at FIST True 1)"
    by (simp add: frame_at_def init_controller_def)
  have f2: "gesture (frame_at FIST True 2) = FIST \<and> is_held (frame_at FIST True 2) \<and>
     gesture_cooldown (init_controller 1920 1080) \<le> current_time (frame_at FIST True 2)"
    by (simp add: frame_at_def init_controller_def)
  from f1 f2 have b: "\<forall>j \<in> set (frame_at FIST True 1 # [frame_at FIST True 2]).
       gesture j = FIST \<and> is_held j \<and> gesture_cooldown (init_controller 1920 1080) \<le> current_time j"
    by simp
  have c: "fst (run (init_controller 1920 1080) [frame_at FIST True 1, frame_at FIST True 2])
     = [[MouseDown, MoveTo 960 540], [MoveTo 960 540]]"
    by code_simp
  from fist_run_one_mouse_down [OF a b] a f1 f2 c show ?thesis by blast
qed


section \<open>Cursor smoothing\<close>

lemma smooth_axis_same: "smooth_axis t t = t"
  by (simp add: smooth_axis_def py_int_def)

lemma smooth_step_axes:
  "smooth_step (lx, ly) (tx, ty) =
     (if lx = 0 \<and> ly = 0 then (tx, ty) else (smooth_axis lx tx, smooth_axis ly ty))"
  using smooth_axis_same [of tx] smooth_axis_same [of ty]
  by (simp add: smooth_step_def smooth_axis_def)

lemma smooth_axis_up:
  assumes "x \<le> t"
  shows "x \<le> smooth_axis x t" "smooth_axis x t \<le> t" "x + 2 \<le> t \<Longrightarrow> x < smooth_axis x t"
proof -
  define v where "v = real_of_int x + real_of_int (t - x) * (1 - 3 / 10)"
  have veq: "10 * v = 3 * real_of_int x + 7 * real_of_int t"
    by (simp add: v_def field_simps)
  have r: "real_of_int x \<le> real_of_int t" using assms by simp
  have v1: "real_of_int x \<le> v" using r using veq by linarith
  have v2: "v \<le> real_of_int t" using r using veq by linarith
  note v = v1 v2
  have s: "smooth_axis x t = (if 0 \<le> v then \<lfloor>v\<rfloor> else \<lceil>v\<rceil>)"
    by (simp add: smooth_axis_def py_int_def v_def)
  show "x \<le> smooth_axis x t" using v unfolding s by (auto simp: le_floor_iff le_ceiling_iff)
  show "smooth_axis x t \<le> t" using v unfolding s by (auto simp: floor_le_iff ceiling_le_iff)
  assume "x + 2 \<le> t"
  then have "real_of_int x + 2 \<le> real_of_int t" by linarith
  then have "real_of_int x + 1 \<le> v" using veq by linarith
  then show "x < smooth_axis x t" unfolding s by (auto simp: less_floor_iff less_ceiling_iff)
qed

lemma smooth_axis_down:
  assumes "t \<le> x"
  shows "t \<le> smooth_axis x t" "smooth_axis x t \<le> x" "t + 2 \<le> x \<Longrightarrow> smooth_axis x t < x"
proof -
  define v where "v = real_of_int x + real_of_int (t - x) * (1 - 3 / 10)"
  have veq: "10 * v = 3 * real_of_int x + 7 * real_of_int t"
    by (simp add: v_def field_simps)
  have r: "real_of_int t \<le> real_of_int x" using assms by simp
  have v1: "real_of_int t \<le> v" using r using veq by linarith
  have v2: "v \<le> real_of_int x" using r using veq by linarith
  note v = v1 v2
  have s: "smooth_axis x t = (if 0 \<le> v then \<lfloor>v\<rfloor> else \<lceil>v\<rceil>)"
    by (simp add: smooth_axis_def py_int_def v_def)
  show "t \<le> smooth_axis x t" using v unfolding s by (auto simp: le_floor_iff le_ceiling_iff)
  show "smooth_axis x t \<le> x" using v unfolding s by (auto simp: floor_le_iff ceiling_le_iff)
  assume "t + 2 \<le> x"
  then have "real_of_int t + 2 \<le> real_of_int x" by linarith
  then have "v \<le> real_of_int x - 1" using veq by linarith
  then show "smooth_axis x t < x" unfolding s by (auto simp: floor_less_iff ceiling_less_iff)
qed

lemma smooth_axis_between:
  "min x t \<le> smooth_axis x t \<and> smooth_axis x t \<le> max x t"
  using smooth_axis_up(1,2) [of x t] smooth_axis_down(1,2) [of t x] by (cases "x \<le> t") auto

lemma smooth_axis_dist:
  "\<bar>smooth_axis x t - t\<bar> \<le> max 1 (\<bar>x - t\<bar> - 1)"
proof (cases "x \<le> t")
  case True
  note b = smooth_axis_up(1,2) [OF True]
  show ?thesis
  proof (cases "x + 2 \<le> t")
    case True
    from smooth_axis_up(3) [OF \<open>x \<le> t\<close> True] b show ?thesis by linarith
  next
    case False
    with b show ?thesis by linarith
  qed
next
  case False
  then have le: "t \<le> x" by simp
  note b = smooth_axis_down(1,2) [OF le]
  show ?thesis
  proof (cases "t + 2 \<le> x")
    case True
    from smooth_axis_down(3) [OF le True] b show ?thesis by linarith
  next
    case False
    with b show ?thesis by linarith
  qed
qed

text \<open>
  From one pixel below a positive target the smoothed coordinate does not move: the
  truncation to an integer takes back the 0.7 pixel of the step.
\<close>

lemma smooth_axis_stalls_below:
  assumes "1 \<le> t"
  shows "smooth_axis (t - 1) t = t - 1"
proof -
  define v where "v = real_of_int (t - 1) + real_of_int (t - (t - 1)) * (1 - 3 / 10)"
  have veq: "v = real_of_int t - 3 / 10" by (simp add: v_def)
  have "0 \<le> v" using assms unfolding veq by linarith
  moreover have "\<lfloor>v\<rfloor> = t - 1" unfolding veq by (rule floor_unique) simp_all
  ultimately show ?thesis by (simp add: smooth_axis_def py_int_def v_def)
qed

lemma max_step:
  "(a::int) \<le> max 1 (b - 1) \<Longrightarrow> b \<le> max 1 (d - int n) \<Longrightarrow> a \<le> max 1 (d - int (Suc n))"
  by linarith

lemma axis_jump:
  "min (x::int) t \<le> t \<and> t \<le> max x t \<and> \<bar>t - t\<bar> \<le> max 1 (\<bar>x - t\<bar> - 1)"
  by simp

lemma axis_smooth:
  "min x t \<le> smooth_axis x t \<and> smooth_axis x t \<le> max x t \<and>
   \<bar>smooth_axis x t - t\<bar> \<le> max 1 (\<bar>x - t\<bar> - 1)"
  using smooth_axis_between [of x t] smooth_axis_dist [of x t] by blast

lemma smooth_step_toward:
  "min (fst l) (fst tg) \<le> fst (smooth_step l tg) \<and>
   fst (smooth_step l tg) \<le> max (fst l) (fst tg) \<and>
   \<bar>fst (smooth_step l tg) - fst tg\<bar> \<le> max 1 (\<bar>fst l - fst tg\<bar> - 1) \<and>
   min (snd l) (snd tg) \<le> snd (smooth_step l tg) \<and>
   snd (smooth_step l tg) \<le> max (snd l) (snd tg) \<and>
   \<bar>snd (smooth_step l tg) - snd tg\<bar> \<le> max 1 (\<bar>snd l - snd tg\<bar> - 1)"
proof -
  obtain lx ly tx ty where l: "l = (lx, ly)" and tg: "tg = (tx, ty)"
    by (cases l, cases tg) blast
  show ?thesis
  proof (cases "lx = 0 \<and> ly = 0")
    case True
    then have "smooth_step l tg = (tx, ty)" by (simp add: l tg smooth_step_axes)
    with axis_jump [of lx tx] axis_jump [of ly ty] show ?thesis
      by (simp only: l tg fst_conv snd_conv) 
  next
    case False
    then have "smooth_step l tg = (smooth_axis lx tx, smooth_axis ly ty)"
      unfolding l tg smooth_step_axes by (simp only: if_False)
    with axis_smooth [of lx tx] axis_smooth [of ly ty] show ?thesis
      by (simp only: l tg fst_conv snd_conv)
  qed
qed

lemma move_cursor_n_target:
  "screen_target (move_cursor_n n s p fw fh) p' fw' fh' = screen_target s p' fw' fh'"
  by (induction n arbitrary: s) (simp_all add: move_cursor_eq screen_target_update)

lemma move_cursor_n_Suc:
  "move_cursor_n (Suc n) s p fw fh = snd (move_cursor (move_cursor_n n s p fw fh) p fw fh)"
  by (induction n arbitrary: s) simp_all

lemma cursor_after_Suc:
  "cursor_after (Suc n) s p fw fh = smooth_step (cursor_after n s p fw fh) (screen_target s p fw fh)"
  unfolding cursor_after_def move_cursor_n_Suc
  by (simp add: move_cursor_eq move_cursor_n_target)

lemma cursor_after_dist:
  "\<bar>fst (cursor_after n s p fw fh) - fst (screen_target s p fw fh)\<bar>
     \<le> max 1 (\<bar>fst (last_cursor_pos s) - fst (screen_target s p fw fh)\<bar> - int n) \<and>
   \<bar>snd (cursor_after n s p fw fh) - snd (screen_target s p fw fh)\<bar>
     \<le> max 1 (\<bar>snd (last_cursor_pos s) - snd (screen_target s p fw fh)\<bar> - int n)"
proof (induction n)
  case 0
  show ?case by (simp add: cursor_after_def)
next
  case (Suc n)
  note t = smooth_step_toward [of "cursor_after n s p fw fh" "screen_target s p fw fh"]
  have x: "\<bar>fst (cursor_after (Suc n) s p fw fh) - fst (screen_target s p fw fh)\<bar>
     \<le> max 1 (\<bar>fst (last_cursor_pos s) - fst (screen_target s p fw fh)\<bar> - int (Suc n))"
    unfolding cursor_after_Suc by (rule max_step [where b = "\<bar>fst (cursor_after n s p fw fh) - fst (screen_target s p fw fh)\<bar>"]) (use t Suc in blast)+
  have y: "\<bar>snd (cursor_after (Suc n) s p fw fh) - snd (screen_target s p fw fh)\<bar>
     \<le> max 1 (\<bar>snd (last_cursor_pos s) - snd (screen_target s p fw fh)\<bar> - int (Suc n))"
    unfolding cursor_after_Suc by (rule max_step [where b = "\<bar>snd (cursor_after n s p fw fh) - snd (screen_target s p fw fh)\<bar>"]) (use t Suc in blast)+
  from x y show ?case by blast
qed

text \<open>
  Claim C9.  Feed \<^verbatim>\<open>_move_cursor\<close> the same palm position and frame size frame after
  frame, from any state (with or without a recorded last position).  Every frame emits
  the newly recorded position, and on each axis that position lies between the previous
  one and the raw target: it moves towards the target, or stays, and never passes it.
  After as many frames as the larger of the two initial distances in pixels, both
  coordinates are within one pixel of the target and stay there.  The tolerance is one
  pixel, the resolution of the emitted integer positions (see
  \<open>smooth_axis_stalls_below\<close>); the arithmetic of the smoothing is the exact one.
\<close>

theorem smoothing_converges:
  "(\<forall>n. fst (move_cursor (move_cursor_n n s p fw fh) p fw fh)
          = [MoveTo (fst (cursor_after (Suc n) s p fw fh)) (snd (cursor_after (Suc n) s p fw fh))]
        \<and> min (fst (cursor_after n s p fw fh)) (fst (screen_target s p fw fh))
            \<le> fst (cursor_after (Suc n) s p fw fh)
        \<and> fst (cursor_after (Suc n) s p fw fh)
            \<le> max (fst (cursor_after n s p fw fh)) (fst (screen_target s p fw fh))
        \<and> min (snd (cursor_after n s p fw fh)) (snd (screen_target s p fw fh))
            \<le> snd (cursor_after (Suc n) s p fw fh)
        \<and> snd (cursor_after (Suc n) s p fw fh)
            \<le> max (snd (cursor_after n s p fw fh)) (snd (screen_target s p fw fh))) \<and>
   (\<forall>n. \<bar>fst (last_cursor_pos s) - fst (screen_target s p fw fh)\<bar> \<le> int n \<and>
        \<bar>snd (last_cursor_pos s) - snd (screen_target s p fw fh)\<bar> \<le> int n \<longrightarrow>
        \<bar>fst (cursor_after n s p fw fh) - fst (screen_target s p fw fh)\<bar> \<le> 1 \<and>
        \<bar>snd (cursor_after n s p fw fh) - snd (screen_target s p fw fh)\<bar> \<le> 1)"
proof (intro conjI allI impI)
  fix n
  show "fst (move_cursor (move_cursor_n n s p fw fh) p fw fh)
          = [MoveTo (fst (cursor_after (Suc n) s p fw fh)) (snd (cursor_after (Suc n) s p fw fh))]"
    unfolding cursor_after_def move_cursor_n_Suc by (simp add: move_cursor_eq)
next
  fix n
  note t = smooth_step_toward [of "cursor_after n s p fw fh" "screen_target s p fw fh"]
  from t show "min (fst (cursor_after n s p fw fh)) (fst (screen_target s p fw fh))
            \<le> fst (cursor_after (Suc n) s p fw fh)" unfolding cursor_after_Suc by blast
  from t show "fst (cursor_after (Suc n) s p fw fh)
            \<le> max (fst (cursor_after n s p fw fh)) (fst (screen_target s p fw fh))"
    unfolding cursor_after_Suc by blast
  from t show "min (snd (cursor_after n s p fw fh)) (snd (screen_target s p fw fh))
            \<le> snd (cursor_after (Suc n) s p fw fh)" unfolding cursor_after_Suc by blast
  from t show "snd (cursor_after (Suc n) s p fw fh)
            \<le> max (snd (cursor_after n s p fw fh)) (snd (screen_target s p fw fh))"
    unfolding cursor_after_Suc by blast
next
  fix n
  assume a: "\<bar>fst (last_cursor_pos s) - fst (screen_target s p fw fh)\<bar> \<le> int n \<and>
        \<bar>snd (last_cursor_pos s) - snd (screen_target s p fw fh)\<bar> \<le> int n"
  have close: "(d::int) \<le> int n \<Longrightarrow> c \<le> max 1 (d - int n) \<Longrightarrow> c \<le> 1" for c d
    by linarith
  from a have ax: "\<bar>fst (last_cursor_pos s) - fst (screen_target s p fw fh)\<bar> \<le> int n"
    and ay: "\<bar>snd (last_cursor_pos s) - snd (screen_target s p fw fh)\<bar> \<le> int n" by blast+
  from cursor_after_dist [of n s p fw fh]
  show "\<bar>fst (cursor_after n s p fw fh) - fst (screen_target s p fw fh)\<bar> \<le> 1"
    by (intro close [OF ax]) blast
  from cursor_after_dist [of n s p fw fh]
  show "\<bar>snd (cursor_after n s p fw fh) - snd (screen_target s p fw fh)\<bar> \<le> 1"
    by (intro close [OF ay]) blast
qed

theorem smoothing_converges_witness:
  "\<bar>fst (last_cursor_pos ((init_controller 1920 1080)\<lparr>last_cursor_pos := (958, 541)\<rparr>))
      - fst (screen_target ((init_controller 1920 1080)\<lparr>last_cursor_pos := (958, 541)\<rparr>)
               (320, 240) 640 480)\<bar> \<le> int 2 \<and>
   \<bar>snd (last_cursor_pos ((init_controller 1920 1080)\<lparr>last_cursor_pos := (958, 541)\<rparr>))
      - snd (screen_target ((init_controller 1920 1080)\<lparr>last_cursor_pos := (958, 541)\<rparr>)
               (320, 240) 640 480)\<bar> \<le> int 2 \<and>
   screen_target ((init_controller 1920 1080)\<lparr>last_cursor_pos := (958, 541)\<rparr>)
     (320, 240) 640 480 = (960, 540) \<and>
   cursor_after 2 ((init_controller 1920 1080)\<lparr>last_cursor_pos := (958, 541)\<rparr>)
     (320, 240) 640 480 = (959, 540) \<and>
   \<bar>fst (cursor_after 2 ((init_controller 1920 1080)\<lparr>last_cursor_pos := (958, 541)\<rparr>)
            (320, 240) 640 480)
      - fst (screen_target ((init_controller 1920 1080)\<lparr>last_cursor_pos := (958, 541)\<rparr>)
               (320, 240) 640 480)\<bar> \<le> 1 \<and>
   \<bar>snd (cursor_after 2 ((init_controller 1920 1080)\<lparr>last_cursor_pos := (958, 541)\<rparr>)
            (320, 240) 640 480)
      - snd (screen_target ((init_controller 1920 1080)\<lparr>last_cursor_pos := (958, 541)\<rparr>)
               (320, 240) 640 480)\<bar> \<le> 1"
proof -
  define s where "s = (init_controller 1920 1080)\<lparr>last_cursor_pos := (958, 541)\<rparr>"
  have tg: "screen_target s (320, 240) 640 480 = (960, 540)" unfolding s_def by code_simp
  have ca: "cursor_after 2 s (320, 240) 640 480 = (959, 540)" unfolding s_def by code_simp
  have lp: "last_cursor_pos s = (958, 541)" by (simp add: s_def)
  have hx: "\<bar>fst (last_cursor_pos s) - fst (screen_target s (320, 240) 640 480)\<bar> \<le> int 2"
    and hy: "\<bar>snd (last_cursor_pos s) - snd (screen_target s (320, 240) 640 480)\<bar> \<le> int 2"
    by (simp_all add: tg lp)
  from smoothing_converges [of s "(320, 240)" 640 480] hx hy
  have "\<bar>fst (cursor_after 2 s (320, 240) 640 480) - fst (screen_target s (320, 240) 640 480)\<bar> \<le> 1 \<and>
        \<bar>snd (cursor_after 2 s (320, 240) 640 480) - snd (screen_target s (320, 240) 640 480)\<bar> \<le> 1"
    by blast
  with hx hy tg ca show ?thesis unfolding s_def by blast
qed

end
